theory Spec2Isabelle
  imports Complex_Main "HOL-Library.Log_Nat"
begin

section \<open>JavaScript numbers\<close>

text \<open>
  The component computes with JavaScript numbers, which are IEEE 754 doubles. Every
  finite double is a rational, so numbers are modelled as \<open>rat\<close>, and values the DOM
  guarantees to be integers (\<open>clientWidth\<close>, \<open>clientHeight\<close>, \<open>innerWidth\<close>, array lengths)
  as \<open>nat\<close> or \<open>int\<close>. \<open>Math.trunc\<close> drops the fractional part (rounds toward zero);
  \<open>Math.round\<close> returns the nearest integer, a tie going toward plus infinity. Both are
  exact on a double.
\<close>

definition Math_trunc :: "rat \<Rightarrow> int" where
  "Math_trunc x = (if 0 \<le> x then \<lfloor>x\<rfloor> else \<lceil>x\<rceil>)"

definition Math_round :: "rat \<Rightarrow> int" where
  "Math_round x = \<lfloor>x + 1 / 2\<rfloor>"

text \<open>
  The product and the quotient of two doubles are the exact results rounded to the
  nearest double, a tie going to the even significand. A double is \<open>m * 2 ^ e\<close> with
  \<open>\<bar>m\<bar> < 2 ^ 53\<close> and \<open>- 1074 \<le> e\<close>; \<open>ilog2 x\<close> is the exponent of the leading bit of a
  positive \<open>x\<close>, and \<open>toDouble\<close> rounds at the 53rd significant bit, or at \<open>2 ^ - 1074\<close> for
  a subnormal result. The overflow to \<open>Infinity\<close> (results of \<open>2 ^ 1024\<close> and more) is not
  modelled.
\<close>

definition roundHalfEven :: "rat \<Rightarrow> int" where
  "roundHalfEven q =
     (let f = \<lfloor>q\<rfloor>; r = q - of_int f
      in if r < 1 / 2 then f else if 1 / 2 < r then f + 1 else if even f then f else f + 1)"

definition ilog2 :: "rat \<Rightarrow> int" where
  "ilog2 x = (if 1 \<le> x then bitlen \<lfloor>x\<rfloor> - 1 else - bitlen (\<lceil>1 / x\<rceil> - 1))"

definition toDouble :: "rat \<Rightarrow> rat" where
  "toDouble x =
     (if x = 0 then 0
      else let e = max (ilog2 \<bar>x\<bar> - 52) (- 1074)
           in of_int (roundHalfEven (x / 2 powi e)) * 2 powi e)"

definition jsMul :: "rat \<Rightarrow> rat \<Rightarrow> rat" where
  "jsMul a b = toDouble (a * b)"

definition jsDiv :: "rat \<Rightarrow> rat \<Rightarrow> rat" where
  "jsDiv a b = toDouble (a / b)"

section \<open>Props and derived bar geometry (VoiceVisualizer.tsx, lines 106-159)\<close>

record props =
  speed :: rat
  barWidth :: rat
  gap :: rat
  rounded :: rat
  backgroundColor :: string
  mainBarColor :: string
  secondaryBarColor :: string
  animateCurrentPick :: bool
  fullscreen :: bool
  onlyRecording :: bool

text \<open>The defaults of the destructured props.\<close>

definition defaultProps :: props where
  "defaultProps =
     \<lparr>speed = 3, barWidth = 2, gap = 1, rounded = 5,
      backgroundColor = ''transparent'', mainBarColor = ''#FFFFFF'',
      secondaryBarColor = ''#5e5e5e'', animateCurrentPick = True,
      fullscreen = False, onlyRecording = False\<rparr>"

definition isMobile :: "int \<Rightarrow> bool" where
  "isMobile screenWidth = (screenWidth < 768)"

definition formattedSpeed :: "props \<Rightarrow> int" where
  "formattedSpeed p = Math_trunc (speed p)"

definition formattedGap :: "props \<Rightarrow> int" where
  "formattedGap p = Math_trunc (gap p)"

definition formattedBarWidth :: "int \<Rightarrow> props \<Rightarrow> int" where
  "formattedBarWidth screenWidth p =
     Math_trunc (if isMobile screenWidth \<and> formattedGap p > 0
                 then barWidth p + 1 else barWidth p)"

definition unit :: "int \<Rightarrow> props \<Rightarrow> int" where
  "unit screenWidth p =
     formattedBarWidth screenWidth p + formattedGap p * formattedBarWidth screenWidth p"

section \<open>The control layer and the collaborators the component calls\<close>

text \<open>
  The fields of \<open>controls\<close> that the resize, live-stream, extraction and completion code
  reads. \<open>audioData\<close> is the live amplitude feed (a byte array), \<open>bufferFromRecordedBlob\<close>
  the first channel of the decoded recording when there is one.
\<close>

record controls =
  audioData :: "nat list"
  isRecordingInProgress :: bool
  isPausedRecording :: bool
  isAvailableRecordedAudio :: bool
  isProcessingOnResize :: bool
  audioSrc :: string
  bufferFromRecordedBlob :: "rat list option"
  currentAudioTime :: rat
  duration :: rat

text \<open>The argument objects built at the three call sites (lines 231-247, 296-302, 329-340).\<close>

record DrawByLiveStreamParams =
  live_audioData :: "nat list"
  live_unit :: int
  live_isRecordingInProgress :: bool
  live_isPausedRecording :: bool
  live_backgroundColor :: string
  live_mainBarColor :: string
  live_secondaryBarColor :: string
  live_barWidth :: int
  live_rounded :: rat
  live_animateCurrentPick :: bool
  live_fullscreen :: bool

record GetBarsDataParams =
  bufferData :: "rat list"
  height :: int
  width :: int
  job_barWidth :: int
  job_gap :: int

text \<open>
  Calls that leave the file: the setters of the control layer, the helpers, the worker
  hook, and the browser's timer and subscription primitives. The component's behaviour
  towards them is the sequence of calls it makes.
\<close>

datatype call =
    SetIsProcessingOnResize bool
  | SetIsProcessingAudioOnComplete bool
  | DrawByLiveStream DrawByLiveStreamParams
  | Run GetBarsDataParams
  | ClearCanvas
  | AddWindowResizeListener
  | ObserveContainer
  | SetTimeoutOnResize nat

section \<open>Component state and the DOM it reads\<close>

text \<open>
  The React state cells and refs of the component that the resize, live-stream and
  completion code reads or writes, the \<open>src\<close> of the audio element behind
  \<open>audioElementRef\<close> (\<open>None\<close> when the ref is empty), and the calls made so far.
  \<open>debouncePending\<close> is the timer of \<open>useDebounce\<close>, see below. The DOM record holds
  what \<open>onResize\<close> measures; \<open>containerMounted\<close> and \<open>canvasMounted\<close> say whether
  \<open>canvasContainerRef.current\<close> and \<open>canvasRef.current\<close> are non-null.
\<close>

record vstate =
  canvasCurrentWidth :: int
  canvasCurrentHeight :: int
  canvasWidth :: int
  screenWidth :: int
  isResizing :: bool
  indexSpeedRef :: int
  audioElementSrc :: "string option"
  debouncePending :: bool
  calls :: "call list"

record env =
  containerMounted :: bool
  canvasMounted :: bool
  clientWidth :: nat
  clientHeight :: nat
  devicePixelRatio :: rat
  innerWidth :: int

definition roundedHeight :: "env \<Rightarrow> int" where
  "roundedHeight d =
     Math_trunc (jsDiv (jsMul (of_nat (clientHeight d)) (devicePixelRatio d)) 2) * 2"

definition onResize :: "props \<Rightarrow> env \<Rightarrow> vstate \<Rightarrow> vstate" where
  "onResize p d s =
     (if \<not> containerMounted d \<or> \<not> canvasMounted d then s
      else s\<lparr>indexSpeedRef := formattedSpeed p,
             canvasCurrentWidth := int (clientWidth d),
             canvasCurrentHeight := roundedHeight d,
             canvasWidth := Math_round (jsMul (of_nat (clientWidth d)) (devicePixelRatio d)),
             isResizing := False\<rparr>)"

definition completedAudioProcessing :: "controls \<Rightarrow> vstate \<Rightarrow> vstate" where
  "completedAudioProcessing c s =
     (let s1 = s\<lparr>calls := calls s @ [SetIsProcessingOnResize False]\<rparr>;
          s2 = s1\<lparr>calls := calls s1 @ [SetIsProcessingAudioOnComplete False]\<rparr>
      in if audioElementSrc s2 \<noteq> None \<and> \<not> isProcessingOnResize c
         then s2\<lparr>audioElementSrc := Some (audioSrc c)\<rparr>
         else s2)"

subsection \<open>The live-stream layout effect (lines 227-260)\<close>

definition liveStreamParams :: "props \<Rightarrow> controls \<Rightarrow> vstate \<Rightarrow> DrawByLiveStreamParams" where
  "liveStreamParams p c s =
     \<lparr>live_audioData = audioData c,
      live_unit = unit (screenWidth s) p,
      live_isRecordingInProgress = isRecordingInProgress c,
      live_isPausedRecording = isPausedRecording c,
      live_backgroundColor = backgroundColor p,
      live_mainBarColor = mainBarColor p,
      live_secondaryBarColor = secondaryBarColor p,
      live_barWidth = formattedBarWidth (screenWidth s) p,
      live_rounded = rounded p,
      live_animateCurrentPick = animateCurrentPick p,
      live_fullscreen = fullscreen p\<rparr>"

definition liveStreamEffect :: "props \<Rightarrow> controls \<Rightarrow> env \<Rightarrow> vstate \<Rightarrow> vstate" where
  "liveStreamEffect p c d s =
     (if \<not> canvasMounted d then s
      else
        let s1 =
          (if indexSpeedRef s \<ge> formattedSpeed p \<or> length (audioData c) = 0
           then s\<lparr>indexSpeedRef := (if length (audioData c) \<noteq> 0 then 0 else formattedSpeed p),
                   calls := calls s @ [DrawByLiveStream (liveStreamParams p c s)]\<rparr>
           else s)
        in s1\<lparr>indexSpeedRef := indexSpeedRef s1 + 1\<rparr>)"

subsection \<open>The extraction effect (lines 278-313)\<close>

definition extractionJob :: "props \<Rightarrow> vstate \<Rightarrow> rat list \<Rightarrow> GetBarsDataParams" where
  "extractionJob p s buf =
     \<lparr>bufferData = buf,
      height = canvasCurrentHeight s,
      width = canvasWidth s,
      job_barWidth = formattedBarWidth (screenWidth s) p,
      job_gap = formattedGap p\<rparr>"

definition extractionEffect :: "props \<Rightarrow> controls \<Rightarrow> env \<Rightarrow> vstate \<Rightarrow> vstate" where
  "extractionEffect p c d s =
     (case bufferFromRecordedBlob c of
        None \<Rightarrow> s
      | Some buf \<Rightarrow>
          if \<not> canvasMounted d \<or> isRecordingInProgress c \<or> isResizing s then s
          else if onlyRecording p then s\<lparr>calls := calls s @ [ClearCanvas]\<rparr>
          else s\<lparr>calls := calls s @ [Run (extractionJob p s buf)]\<rparr>)"

text \<open>
  The effect also empties \<open>picksRef\<close> and registers a \<open>mousemove\<close> listener before and after
  the call of \<open>run\<close>; neither is part of the state modelled here.
\<close>

subsection \<open>The resize effect (lines 176-225)\<close>

text \<open>
  The effect picks one of three strategies. \<open>isSafari\<close> is the outcome of the user-agent
  test of line 177 and \<open>hasResizeObserver\<close> that of \<open>typeof ResizeObserver !== "undefined"\<close>.
\<close>

datatype strategy = SafariWindow | ContainerObserver | WindowFallback

definition resizeStrategy :: "bool \<Rightarrow> bool \<Rightarrow> env \<Rightarrow> strategy" where
  "resizeStrategy isSafari hasResizeObserver d =
     (if isSafari then SafariWindow
      else if hasResizeObserver \<and> containerMounted d then ContainerObserver
      else WindowFallback)"

text \<open>
  Modelled from the spec: \<open>useDebounce\<close> (hooks/useDebounce.tsx) is not part of the
  sources at hand. The spec says that the work is scheduled "after a debounce window (to
  coalesce rapid-fire resize bursts into one extraction)": a call of the debounced
  function (re)starts the window, and when the window elapses with a call pending the
  wrapped function, here \<open>onResize\<close>, runs once.
\<close>

text \<open>Modelled from the spec: a call of the debounced \<open>onResize\<close> (re)starts the window.\<close>

definition debouncedOnResize :: "vstate \<Rightarrow> vstate" where
  "debouncedOnResize s = s\<lparr>debouncePending := True\<rparr>"

text \<open>Modelled from the spec: the window elapses; a pending \<open>onResize\<close> runs once.\<close>

definition debounceElapsed :: "props \<Rightarrow> env \<Rightarrow> vstate \<Rightarrow> vstate" where
  "debounceElapsed p d s =
     (if debouncePending s then onResize p d (s\<lparr>debouncePending := False\<rparr>) else s)"

text \<open>What the effect does when it runs: subscriptions, immediate and delayed re-checks.\<close>

definition resizeEffect :: "bool \<Rightarrow> bool \<Rightarrow> props \<Rightarrow> env \<Rightarrow> vstate \<Rightarrow> vstate" where
  "resizeEffect isSafari hasResizeObserver p d s =
     (case resizeStrategy isSafari hasResizeObserver d of
        SafariWindow \<Rightarrow>
          (let s1 = s\<lparr>calls := calls s @ [AddWindowResizeListener]\<rparr>;
               s2 = onResize p d s1
           in s2\<lparr>calls := calls s2 @
                  [SetTimeoutOnResize 100, SetTimeoutOnResize 500, SetTimeoutOnResize 1000]\<rparr>)
      | ContainerObserver \<Rightarrow> s\<lparr>calls := calls s @ [ObserveContainer]\<rparr>
      | WindowFallback \<Rightarrow> onResize p d (s\<lparr>calls := calls s @ [AddWindowResizeListener]\<rparr>))"

text \<open>
  The callback each strategy registers: \<open>handleResize\<close> of lines 183-188, the observer
  callback of lines 198-207, \<open>handleResize\<close> of lines 211-220.
\<close>

definition scheduleDebounced :: "vstate \<Rightarrow> vstate" where
  "scheduleDebounced s =
     debouncedOnResize
       (s\<lparr>calls := calls s @ [SetIsProcessingOnResize True], isResizing := True\<rparr>)"

definition resizeHandler :: "strategy \<Rightarrow> props \<Rightarrow> controls \<Rightarrow> env \<Rightarrow> vstate \<Rightarrow> vstate" where
  "resizeHandler st p c d s =
     (let s1 = s\<lparr>screenWidth := innerWidth d\<rparr>
      in case st of
           SafariWindow \<Rightarrow> scheduleDebounced s1
         | ContainerObserver \<Rightarrow>
             (if isAvailableRecordedAudio c then scheduleDebounced s1 else onResize p d s1)
         | WindowFallback \<Rightarrow>
             (if isAvailableRecordedAudio c then scheduleDebounced s1 else onResize p d s1))"

text \<open>
  After an event the component renders again, and React runs the extraction effect when
  one of its dependencies (line 313) differs from the previous render.
\<close>

definition extractionDeps ::
  "props \<Rightarrow> controls \<Rightarrow> vstate \<Rightarrow> rat list option \<times> int \<times> int \<times> rat \<times> rat \<times> bool" where
  "extractionDeps p c s =
     (bufferFromRecordedBlob c, canvasCurrentWidth s, canvasCurrentHeight s,
      gap p, barWidth p, isResizing s)"

definition rerender :: "props \<Rightarrow> controls \<Rightarrow> env \<Rightarrow> vstate \<Rightarrow> vstate \<Rightarrow> vstate" where
  "rerender p c d s s' =
     (if extractionDeps p c s' \<noteq> extractionDeps p c s then extractionEffect p c d s' else s')"

datatype resizeEvent = Notify env | WindowElapsed env

fun resizeStep :: "strategy \<Rightarrow> props \<Rightarrow> controls \<Rightarrow> resizeEvent \<Rightarrow> vstate \<Rightarrow> vstate" where
  "resizeStep st p c (Notify d) s = rerender p c d s (resizeHandler st p c d s)"
| "resizeStep st p c (WindowElapsed d) s = rerender p c d s (debounceElapsed p d s)"

fun resizeRun :: "strategy \<Rightarrow> props \<Rightarrow> controls \<Rightarrow> resizeEvent list \<Rightarrow> vstate \<Rightarrow> vstate" where
  "resizeRun st p c [] s = s"
| "resizeRun st p c (e # es) s = resizeRun st p c es (resizeStep st p c e s)"

fun isRun :: "call \<Rightarrow> bool" where
  "isRun (Run j) = True"
| "isRun _ = False"

fun isDraw :: "call \<Rightarrow> bool" where
  "isDraw (DrawByLiveStream a) = True"
| "isDraw _ = False"

section \<open>The Bar Extractor\<close>

text \<open>
  Modelled from the spec: \<open>getBarsData\<close> (helpers) is not part of the sources at hand.
  The spec's contract (section 4.1): the output has \<open>floor(targetPixelWidth / unit)\<close> bars
  with \<open>unit = barWidth + gap * barWidth\<close>; the sample buffer is partitioned into that
  many contiguous chunks of equal length up to one; the peak of a chunk is the maximum
  absolute value over it; the peak is scaled so that amplitude 1 maps to half the target
  height; a bar is symmetric. A chunk without samples has peak 0. The spec gives no value
  to \<open>floor(w / unit)\<close> for \<open>unit = 0\<close>, and the theorems below assume \<open>0 < unit\<close>.
\<close>

record BarsData =
  amplitudeAboveAxis :: rat
  amplitudeBelowAxis :: rat

text \<open>Modelled from the spec: the pitch \<open>unit = barWidth + gap * barWidth\<close> of a job.\<close>

definition jobUnit :: "GetBarsDataParams \<Rightarrow> int" where
  "jobUnit j = job_barWidth j + job_gap j * job_barWidth j"

text \<open>Modelled from the spec: the number of bars, \<open>floor(targetPixelWidth / unit)\<close>.\<close>

definition barCount :: "GetBarsDataParams \<Rightarrow> nat" where
  "barCount j = nat \<lfloor>(of_int (width j) :: rat) / of_int (jobUnit j)\<rfloor>"

text \<open>
  Modelled from the spec: chunk \<open>i\<close> of a partition of the buffer into \<open>n\<close> contiguous
  chunks whose lengths differ by at most one.
\<close>

definition chunk :: "rat list \<Rightarrow> nat \<Rightarrow> nat \<Rightarrow> rat list" where
  "chunk S n i =
     (let lo = (i * length S) div n; hi = ((i + 1) * length S) div n
      in take (hi - lo) (drop lo S))"

text \<open>Modelled from the spec: the maximum absolute value over a chunk.\<close>

definition peak :: "rat list \<Rightarrow> rat" where
  "peak xs = fold (\<lambda>x m. max \<bar>x\<bar> m) xs 0"

text \<open>
  Modelled from the spec: the symmetric bar of a chunk, amplitude 1 mapping to half the
  target height.
\<close>

definition barOfChunk :: "int \<Rightarrow> rat list \<Rightarrow> BarsData" where
  "barOfChunk h xs =
     (let scaledPeak = peak xs * (of_int h / 2)
      in \<lparr>amplitudeAboveAxis = scaledPeak, amplitudeBelowAxis = scaledPeak\<rparr>)"

text \<open>Modelled from the spec: \<open>getBarsData\<close>, one bar for each chunk, left to right.\<close>

definition getBarsData :: "GetBarsDataParams \<Rightarrow> BarsData list" where
  "getBarsData j =
     map (\<lambda>i. barOfChunk (height j) (chunk (bufferData j) (barCount j) i)) [0..<barCount j]"

section \<open>The Offload Coordinator\<close>

text \<open>
  Modelled from the spec: \<open>useWebWorker\<close> (hooks/useWebWorker.tsx) is not part of the
  sources at hand. The spec's contract (section 4.2): \<open>submit\<close> starts the extraction of a
  job on the background channel; when a job completes, its result is handed to the
  completion callback only if no newer job has been submitted since, and is discarded
  otherwise. Jobs are told apart by the order of submission: \<open>latest\<close> counts the
  submissions, \<open>inflight\<close> holds the jobs still executing with their numbers, and
  \<open>delivered\<close> the results handed to the callback, oldest first.
\<close>

record coordinator =
  latest :: nat
  inflight :: "(nat \<times> GetBarsDataParams) list"
  delivered :: "BarsData list list"

definition idle :: coordinator where
  "idle = \<lparr>latest = 0, inflight = [], delivered = []\<rparr>"

text \<open>Modelled from the spec: submitting a job makes it the most recent one.\<close>

definition submit :: "GetBarsDataParams \<Rightarrow> coordinator \<Rightarrow> coordinator" where
  "submit j c =
     c\<lparr>latest := latest c + 1, inflight := inflight c @ [(latest c + 1, j)]\<rparr>"

text \<open>
  Modelled from the spec: the job numbered \<open>t\<close> completes; its result is delivered if it
  is the most recently submitted job and discarded otherwise.
\<close>

definition complete :: "nat \<Rightarrow> coordinator \<Rightarrow> coordinator" where
  "complete t c =
     (case map_of (inflight c) t of
        None \<Rightarrow> c
      | Some j \<Rightarrow>
          (let c1 = c\<lparr>inflight := filter (\<lambda>e. fst e \<noteq> t) (inflight c)\<rparr>
           in if t = latest c then c1\<lparr>delivered := delivered c1 @ [getBarsData j]\<rparr> else c1))"

section \<open>The Blob Renderer\<close>

text \<open>
  Modelled from the spec: \<open>drawByBlob\<close> (helpers) is not part of the sources at hand; only
  its call (lines 329-340) is. The spec's contract (section 4.5): bar \<open>i\<close> has its left edge at
  pixel \<open>i * unit\<close> and is painted in \<open>mainBarColor\<close> if
  \<open>(i * unit) / totalWidth * duration \<le> playheadTime\<close>, in \<open>secondaryBarColor\<close> otherwise;
  an empty bar sequence or a surface of width zero paints no bar. The result is the list of
  bars painted, left to right; \<open>blob_canvasWidth\<close> is the width of the canvas argument.
\<close>

record DrawByBlobParams =
  blob_barsData :: "BarsData list"
  blob_canvasWidth :: int
  blob_barWidth :: int
  blob_gap :: int
  blob_backgroundColor :: string
  blob_mainBarColor :: string
  blob_secondaryBarColor :: string
  blob_currentAudioTime :: rat
  blob_rounded :: rat
  blob_duration :: rat

record paintedBar =
  leftEdge :: int
  color :: string
  bar :: BarsData

text \<open>Modelled from the spec: the pitch the renderer forms from its arguments.\<close>

definition blobUnit :: "DrawByBlobParams \<Rightarrow> int" where
  "blobUnit a = blob_barWidth a + blob_gap a * blob_barWidth a"



text \<open>The argument object of the call in the component (lines 329-340).\<close>

definition blobParams :: "props \<Rightarrow> controls \<Rightarrow> vstate \<Rightarrow> BarsData list \<Rightarrow> DrawByBlobParams" where
  "blobParams p c s barsData =
     \<lparr>blob_barsData = barsData,
      blob_canvasWidth = canvasWidth s,
      blob_barWidth = formattedBarWidth (screenWidth s) p,
      blob_gap = formattedGap p,
      blob_backgroundColor = backgroundColor p,
      blob_mainBarColor = mainBarColor p,
      blob_secondaryBarColor = secondaryBarColor p,
      blob_currentAudioTime = currentAudioTime c,
      blob_rounded = rounded p,
      blob_duration = duration c\<rparr>"

section \<open>Example inputs\<close>

text \<open>
  A desktop page with a mounted canvas, a finished recording of three samples, and a
  component that has rendered once.
\<close>

definition exampleEnv :: env where
  "exampleEnv =
     \<lparr>containerMounted = True, canvasMounted = True, clientWidth = 300, clientHeight = 100,
      devicePixelRatio = 2, innerWidth = 1024\<rparr>"

definition exampleControls :: controls where
  "exampleControls =
     \<lparr>audioData = [128], isRecordingInProgress = False, isPausedRecording = False,
      isAvailableRecordedAudio = True, isProcessingOnResize = False,
      audioSrc = ''blob:recording'', bufferFromRecordedBlob = Some [1 / 2, - 1, 1 / 4],
      currentAudioTime = 4, duration = 10\<rparr>"

definition exampleState :: vstate where
  "exampleState =
     \<lparr>canvasCurrentWidth = 0, canvasCurrentHeight = 0, canvasWidth = 0, screenWidth = 1024,
      isResizing = False, indexSpeedRef = 1, audioElementSrc = Some ''blob:previous'',
      debouncePending = False, calls = []\<rparr>"

definition exampleJob :: GetBarsDataParams where
  "exampleJob =
     \<lparr>bufferData = [1 / 2, - 1, 1 / 4], height = 200, width = 100,
      job_barWidth = 2, job_gap = 1\<rparr>"


section \<open>Bar geometry\<close>

lemma Math_trunc_of_int: "Math_trunc (of_int n) = n"
  by (simp add: Math_trunc_def)

lemma formattedGap_of_int: "gap p = of_int g \<Longrightarrow> formattedGap p = g"
  by (simp add: formattedGap_def Math_trunc_of_int)

lemma formattedBarWidth_of_int:
  assumes b: "barWidth p = of_int b" and g: "gap p = of_int g"
  shows "formattedBarWidth sw p = (if sw < 768 \<and> 0 < g then b + 1 else b)"
proof -
  have "Math_trunc (of_int b + 1) = b + 1"
    using Math_trunc_of_int [of "b + 1"] by simp
  then show ?thesis
    using b g
    by (simp add: formattedBarWidth_def isMobile_def formattedGap_of_int Math_trunc_of_int)
qed

text \<open>
  C7. The configuration surface takes \<open>barWidth\<close> and \<open>gap\<close> as integers. For every such
  \<open>barWidth\<close> and \<open>gap\<close>, the effective bar width is \<open>barWidth + 1\<close> when the viewport is
  narrower than 768 pixels and \<open>gap > 0\<close>, and \<open>barWidth\<close> otherwise; the pitch is
  \<open>unit = effective + gap * effective\<close>; and the live renderer, the blob renderer and the
  extraction job all receive this effective width (the live renderer the pitch, the
  other two the gap it is formed with).
\<close>

theorem effective_bar_width:
  assumes "barWidth p = of_int b" and "gap p = of_int g"
  shows "formattedBarWidth sw p = (if sw < 768 \<and> 0 < g then b + 1 else b)
       \<and> unit sw p = formattedBarWidth sw p + g * formattedBarWidth sw p
       \<and> (screenWidth s = sw \<longrightarrow>
            live_barWidth (liveStreamParams p c s) = formattedBarWidth sw p
          \<and> live_unit (liveStreamParams p c s) = unit sw p
          \<and> blob_barWidth (blobParams p c s bars) = formattedBarWidth sw p
          \<and> blobUnit (blobParams p c s bars) = unit sw p
          \<and> job_barWidth (extractionJob p s buf) = formattedBarWidth sw p
          \<and> jobUnit (extractionJob p s buf) = unit sw p)"
  using assms
  by (simp add: formattedBarWidth_of_int unit_def formattedGap_of_int liveStreamParams_def
      blobParams_def blobUnit_def extractionJob_def jobUnit_def)

theorem effective_bar_width_witness:
  "formattedBarWidth 500 defaultProps = 3 \<and> unit 500 defaultProps = 6
   \<and> formattedBarWidth 1024 defaultProps = 2 \<and> unit 1024 defaultProps = 4
   \<and> jobUnit (extractionJob defaultProps exampleState [1]) = 4"
  using effective_bar_width [of defaultProps 2 1 500 exampleState]
    effective_bar_width [of defaultProps 2 1 1024 exampleState exampleControls "[]" "[1]"]
  by (simp add: defaultProps_def exampleState_def)

section \<open>Rounding to a double\<close>

lemma powi_le_iff: "(2::rat) powi a \<le> 2 powi b \<longleftrightarrow> a \<le> b"
proof
  assume h: "(2::rat) powi a \<le> 2 powi b"
  show "a \<le> b"
  proof (rule ccontr)
    assume "\<not> a \<le> b"
    then have "b < a" by simp
    from power_int_strict_increasing [OF this, of "2::rat"] h show False by simp
  qed
next
  assume "a \<le> b"
  then show "(2::rat) powi a \<le> 2 powi b"
    by (rule power_int_increasing) simp
qed

lemma powi_less_iff: "(2::rat) powi a < 2 powi b \<longleftrightarrow> a < b"
  using powi_le_iff [of b a] by (simp add: not_le [symmetric])

lemma powi_add: "(2::rat) powi (a + b) = 2 powi a * 2 powi b"
  by (rule power_int_add) simp

lemma powi_diff: "(2::rat) powi (a - b) = 2 powi a / 2 powi b"
  by (rule power_int_diff) simp

lemma powi_nat: "0 \<le> k \<Longrightarrow> (2::rat) powi k = of_int (2 ^ nat k)"
  by (simp add: power_int_def)

lemma ilog2_bounds:
  assumes "0 < x"
  shows "2 powi (ilog2 x) \<le> x \<and> x < 2 powi (ilog2 x + 1)"
proof (cases "1 \<le> x")
  case True
  let ?n = "\<lfloor>x\<rfloor>"
  have n: "0 < ?n" using True by simp
  from bitlen_bounds [OF n]
  have b: "2 ^ nat (bitlen ?n - 1) \<le> ?n" "?n < 2 ^ nat (bitlen ?n)" by simp_all
  have b1: "1 \<le> bitlen ?n"
    using n bitlen_eq_zero_iff [of ?n] bitlen_nonneg [of ?n] by linarith
  have i: "ilog2 x = bitlen ?n - 1" using True by (simp add: ilog2_def)
  have "(2::rat) powi (bitlen ?n - 1) = of_int (2 ^ nat (bitlen ?n - 1))"
    using b1 by (simp add: powi_nat)
  also have "\<dots> \<le> of_int ?n" using b(1) by (simp only: of_int_le_iff)
  also have "\<dots> \<le> x" by simp
  finally have lo: "2 powi (ilog2 x) \<le> x" by (simp add: i)
  have "x < of_int (?n + 1)" by linarith
  also have "\<dots> \<le> of_int (2 ^ nat (bitlen ?n))"
    using b(2) by (subst of_int_le_iff) linarith
  also have "\<dots> = 2 powi (bitlen ?n)"
    using b1 by (simp add: powi_nat)
  finally have "x < 2 powi (ilog2 x + 1)" by (simp add: i)
  with lo show ?thesis by simp
next
  case False
  let ?y = "1 / x"
  let ?c = "\<lceil>?y\<rceil> - 1"
  have y: "1 < ?y" using False assms by simp
  have c: "0 < ?c" using y by linarith
  have cy: "of_int ?c < ?y" "?y \<le> of_int ?c + 1" by linarith+
  from bitlen_bounds [OF c]
  have b: "2 ^ nat (bitlen ?c - 1) \<le> ?c" "?c < 2 ^ nat (bitlen ?c)" by simp_all
  have b1: "1 \<le> bitlen ?c"
    using c bitlen_eq_zero_iff [of ?c] bitlen_nonneg [of ?c] by linarith
  have i: "ilog2 x = - bitlen ?c" using False by (simp add: ilog2_def)
  have "?y \<le> of_int (?c + 1)" using cy(2) by simp
  also have "\<dots> \<le> of_int (2 ^ nat (bitlen ?c))"
    using b(2) by (subst of_int_le_iff) linarith
  also have "\<dots> = 2 powi (bitlen ?c)" using b1 by (simp add: powi_nat)
  finally have "1 / x \<le> 2 powi (bitlen ?c)" .
  then have "1 \<le> 2 powi (bitlen ?c) * x"
    using assms by (simp add: field_simps)
  then have "2 powi (- bitlen ?c) \<le> x"
    by (simp add: power_int_minus field_simps)
  then have lo: "2 powi (ilog2 x) \<le> x" by (simp add: i)
  have "(2::rat) powi (bitlen ?c - 1) = of_int (2 ^ nat (bitlen ?c - 1))"
    using b1 by (simp add: powi_nat)
  also have "\<dots> \<le> of_int ?c" using b(1) by (simp only: of_int_le_iff)
  also have "\<dots> < 1 / x" using cy(1) .
  finally have "2 powi (bitlen ?c - 1) < 1 / x" .
  then have "x * 2 powi (bitlen ?c - 1) < 1"
    using assms by (simp add: pos_less_divide_eq mult.commute)
  then have "x < 1 / 2 powi (bitlen ?c - 1)"
    by (simp add: pos_less_divide_eq)
  also have "\<dots> = 2 powi (0 - (bitlen ?c - 1))"
    by (simp only: powi_diff power_int_0_right)
  also have "0 - (bitlen ?c - 1) = - bitlen ?c + 1" by simp
  finally have "x < 2 powi (- bitlen ?c + 1)" .
  then have "x < 2 powi (ilog2 x + 1)" by (simp add: i)
  with lo show ?thesis by simp
qed

lemma ilog2_less: "0 < x \<Longrightarrow> x < 2 powi k \<Longrightarrow> ilog2 x < k"
  using ilog2_bounds [of x] powi_less_iff [of "ilog2 x" k] by linarith

lemma ilog2_le: "0 < x \<Longrightarrow> x \<le> 2 powi k \<Longrightarrow> ilog2 x \<le> k"
  using ilog2_bounds [of x] powi_le_iff [of "ilog2 x" k] by linarith

lemma ilog2_ge: "0 < x \<Longrightarrow> 2 powi k \<le> x \<Longrightarrow> k \<le> ilog2 x"
  using ilog2_bounds [of x] powi_less_iff [of k "ilog2 x + 1"] by linarith

lemma roundHalfEven_of_int: "roundHalfEven (of_int n) = n"
  by (simp add: roundHalfEven_def)

lemma roundHalfEven_nonneg: "0 \<le> q \<Longrightarrow> 0 \<le> roundHalfEven q"
  by (auto simp add: roundHalfEven_def Let_def)

lemma roundHalfEven_le: "q \<le> of_int N \<Longrightarrow> roundHalfEven q \<le> N"
proof -
  assume q: "q \<le> of_int N"
  then have f: "\<lfloor>q\<rfloor> \<le> N" by (simp add: floor_le_iff) 
  show ?thesis
  proof (cases "\<lfloor>q\<rfloor> = N")
    case True
    then have "q = of_int N" using q by linarith
    then show ?thesis by (simp add: roundHalfEven_of_int)
  next
    case False
    then have "\<lfloor>q\<rfloor> + 1 \<le> N" using f by simp
    then show ?thesis by (auto simp add: roundHalfEven_def Let_def)
  qed
qed

lemma roundHalfEven_ge: "of_int N \<le> q \<Longrightarrow> N \<le> roundHalfEven q"
proof -
  assume "of_int N \<le> q"
  then have "N \<le> \<lfloor>q\<rfloor>" by (simp add: le_floor_iff)
  then show ?thesis by (auto simp add: roundHalfEven_def Let_def)
qed

lemma toDouble_pos_def:
  "0 < x \<Longrightarrow>
   toDouble x =
     of_int (roundHalfEven (x / 2 powi (max (ilog2 x - 52) (- 1074))))
       * 2 powi (max (ilog2 x - 52) (- 1074))"
  by (simp add: toDouble_def Let_def)

lemma toDouble_nonneg: "0 \<le> x \<Longrightarrow> 0 \<le> toDouble x"
proof (cases "x = 0")
  case True
  then show ?thesis by (simp add: toDouble_def)
next
  case False
  assume "0 \<le> x"
  with False have x: "0 < x" by simp
  have "0 \<le> x / 2 powi (max (ilog2 x - 52) (- 1074))"
    using x by simp
  from roundHalfEven_nonneg [OF this] show ?thesis
    by (simp add: toDouble_pos_def [OF x])
qed

lemma toDouble_form:
  assumes x: "0 < x"
  shows "\<exists>m e. toDouble x = of_int m * 2 powi e \<and> 0 \<le> m \<and> m \<le> 2 ^ 53 \<and> - 1074 \<le> e"
proof -
  let ?e = "max (ilog2 x - 52) (- 1074)"
  let ?m = "roundHalfEven (x / 2 powi ?e)"
  have "x < 2 powi (ilog2 x + 1)"
    using ilog2_bounds [OF x] by simp
  also have "\<dots> \<le> 2 powi (?e + 53)"
    by (simp add: powi_le_iff)
  also have "\<dots> = 2 powi ?e * of_int (2 ^ 53)"
    by (simp only: powi_add) simp
  finally have "x / 2 powi ?e \<le> of_int (2 ^ 53)"
    by (simp add: pos_divide_le_eq mult.commute)
  then have "?m \<le> 2 ^ 53"
    by (rule roundHalfEven_le)
  moreover have "0 \<le> ?m"
    using x by (intro roundHalfEven_nonneg) simp
  moreover have "toDouble x = of_int ?m * 2 powi ?e"
    by (rule toDouble_pos_def [OF x])
  moreover have "- 1074 \<le> ?e" by simp
  ultimately show ?thesis by blast
qed

lemma powi_split: "e' \<le> e \<Longrightarrow> (2::rat) powi e = of_int (2 ^ nat (e - e')) * 2 powi e'"
proof -
  assume "e' \<le> e"
  then have "(2::rat) powi (e - e') = of_int (2 ^ nat (e - e'))"
    by (simp add: powi_nat)
  moreover have "(2::rat) powi e = 2 powi (e - e') * 2 powi e'"
    by (simp only: powi_add [symmetric]) simp
  ultimately show ?thesis by simp
qed

lemma powi_quot: "e' \<le> e \<Longrightarrow> (2::rat) powi e / 2 powi e' = of_int (2 ^ nat (e - e'))"
  by (simp only: powi_diff [symmetric]) (simp add: powi_nat)

lemma toDouble_representable:
  assumes m: "0 \<le> m" "m \<le> 2 ^ 53" and e: "- 1074 \<le> e"
  shows "toDouble (of_int m * 2 powi e) = of_int m * 2 powi e"
proof (cases "m = 0")
  case True
  then show ?thesis by (simp add: toDouble_def)
next
  case False
  let ?x = "of_int m * (2::rat) powi e"
  let ?e' = "max (ilog2 ?x - 52) (- 1074)"
  have mpos: "0 < m" using False m by simp
  then have x: "0 < ?x" by simp
  have mr: "(of_int m :: rat) \<le> of_int (2 ^ 53)"
    using m(2) by (simp only: of_int_le_iff)
  have "?x \<le> of_int (2 ^ 53) * 2 powi e"
    by (rule mult_right_mono [OF mr]) simp
  also have "\<dots> = 2 powi (e + 53)"
    by (simp only: powi_add) simp
  finally have up: "?x \<le> 2 powi (e + 53)" .
  then have il: "ilog2 ?x \<le> e + 53" by (rule ilog2_le [OF x])
  show ?thesis
  proof (cases "ilog2 ?x \<le> e + 52")
    case True
    then have le: "?e' \<le> e" using e by simp
    have "?x / 2 powi ?e' = of_int m * (2 powi e / 2 powi ?e')"
      by simp
    also have "\<dots> = of_int m * of_int (2 ^ nat (e - ?e'))"
      by (simp only: powi_quot [OF le])
    also have "\<dots> = of_int (m * 2 ^ nat (e - ?e'))"
      by simp
    finally have "roundHalfEven (?x / 2 powi ?e') = m * 2 ^ nat (e - ?e')"
      by (simp only: roundHalfEven_of_int)
    then have "toDouble ?x = of_int (m * 2 ^ nat (e - ?e')) * 2 powi ?e'"
      by (simp only: toDouble_pos_def [OF x])
    also have "\<dots> = of_int m * (of_int (2 ^ nat (e - ?e')) * 2 powi ?e')"
      by simp
    also have "\<dots> = ?x"
      by (simp only: powi_split [OF le, symmetric])
    finally show ?thesis .
  next
    case False
    with il have eq: "ilog2 ?x = e + 53" by simp
    have "2 powi (e + 53) \<le> ?x"
      using ilog2_bounds [OF x] by (simp add: eq)
    with up have xe: "?x = 2 powi (e + 53)" by simp
    have e': "?e' = e + 1" using e by (simp add: eq)
    have "?x / 2 powi (e + 1) = 2 powi 52"
      by (simp only: xe powi_diff [symmetric]) simp
    also have "\<dots> = of_int (2 ^ 52)" by simp
    finally have "roundHalfEven (?x / 2 powi (e + 1)) = 2 ^ 52"
      by (simp only: roundHalfEven_of_int)
    then have "toDouble ?x = of_int (2 ^ 52) * 2 powi (e + 1)"
      using toDouble_pos_def [OF x] by (simp only: e')
    also have "\<dots> = 2 powi 52 * 2 powi (e + 1)" by simp
    also have "\<dots> = 2 powi (52 + (e + 1))"
      by (simp only: powi_add [symmetric])
    also have "52 + (e + 1) = e + 53" by simp
    finally show ?thesis by (simp only: xe)
  qed
qed

lemma toDouble_le_powi:
  assumes y: "0 < y" and le: "y \<le> 2 powi k" and k: "- 1074 \<le> k"
  shows "toDouble y \<le> 2 powi k"
proof -
  let ?e' = "max (ilog2 y - 52) (- 1074)"
  have "ilog2 y \<le> k" by (rule ilog2_le [OF y le])
  then have e': "?e' \<le> k" using k by simp
  have "y / 2 powi ?e' \<le> 2 powi k / 2 powi ?e'"
    using le by (simp add: divide_right_mono)
  also have "\<dots> = of_int (2 ^ nat (k - ?e'))"
    using powi_split [OF e'] by simp
  finally have "roundHalfEven (y / 2 powi ?e') \<le> 2 ^ nat (k - ?e')"
    by (rule roundHalfEven_le)
  then have "(of_int (roundHalfEven (y / 2 powi ?e')) :: rat) \<le> of_int (2 ^ nat (k - ?e'))"
    by (simp only: of_int_le_iff)
  then have "toDouble y \<le> of_int (2 ^ nat (k - ?e')) * 2 powi ?e'"
    by (simp only: toDouble_pos_def [OF y]) (rule mult_right_mono, simp_all)
  then show ?thesis
    by (simp only: powi_split [OF e', symmetric])
qed

lemma halving_exact:
  assumes "0 \<le> x"
  shows "Math_trunc (jsDiv (toDouble x) 2) = Math_trunc (toDouble x / 2)"
proof (cases "toDouble x = 0")
  case True
  then show ?thesis by (simp add: jsDiv_def toDouble_def)
next
  case False
  then have "x \<noteq> 0" by (auto simp add: toDouble_def)
  with assms have x: "0 < x" by simp
  from toDouble_form [OF x] obtain m e where
    p: "toDouble x = of_int m * 2 powi e" and m: "0 \<le> m" "m \<le> 2 ^ 53" and e: "- 1074 \<le> e"
    by blast
  have half: "toDouble x / 2 = of_int m * 2 powi (e - 1)"
    by (simp add: p powi_diff)
  show ?thesis
  proof (cases "- 1073 \<le> e")
    case True
    then have "- 1074 \<le> e - 1" by simp
    from toDouble_representable [OF m this] show ?thesis
      by (simp add: jsDiv_def half)
  next
    case False
    with e have e1: "e = - 1074" by simp
    let ?y = "toDouble x / 2"
    have ypos: "0 < ?y"
      using False toDouble_nonneg [OF assms] \<open>toDouble x \<noteq> 0\<close> by simp
    have mr: "(of_int m :: rat) \<le> of_int (2 ^ 53)"
      using m(2) by (simp only: of_int_le_iff)
    have "?y \<le> of_int (2 ^ 53) * 2 powi (e - 1)"
      unfolding half by (rule mult_right_mono [OF mr]) simp
    also have "\<dots> = 2 powi 53 * 2 powi (e - 1)" by simp
    also have "\<dots> = 2 powi (- 1022)"
      by (simp only: powi_add [symmetric] e1) simp
    finally have yle: "?y \<le> 2 powi (- 1022)" .
    have small: "(2::rat) powi (- 1022) < 1"
      using powi_less_iff [of "- 1022" 0] by simp
    have "toDouble ?y \<le> 2 powi (- 1022)"
      by (rule toDouble_le_powi [OF ypos yle]) simp
    moreover have "0 \<le> toDouble ?y"
      using ypos by (intro toDouble_nonneg) simp
    ultimately have "Math_trunc (toDouble ?y) = 0"
      using small by (simp add: Math_trunc_def floor_eq_iff)
    moreover have "Math_trunc ?y = 0"
      using ypos yle small by (simp add: Math_trunc_def floor_eq_iff)
    ultimately show ?thesis by (simp add: jsDiv_def)
  qed
qed

lemma toDouble_dyadic:
  assumes "0 \<le> m" and "m \<le> 2 ^ 53" and "k \<le> 1074"
  shows "toDouble (of_int m / 2 ^ k) = of_int m / 2 ^ k"
proof -
  have "(2::rat) powi (- int k) = 1 / 2 ^ k"
    by (simp add: power_int_minus inverse_eq_divide)
  moreover have "- 1074 \<le> - int k"
    using assms(3) by simp
  ultimately show ?thesis
    using toDouble_representable [OF assms(1,2), of "- int k"] by simp
qed

lemma toDouble_of_int:
  "0 \<le> m \<Longrightarrow> m \<le> 2 ^ 53 \<Longrightarrow> toDouble (of_int m) = of_int m"
  using toDouble_dyadic [of m 0] by simp

text \<open>
  The model on products that are not exact in doubles: \<open>3 * 1.3333333333333333\<close> is 4,
  \<open>5 * 1.2\<close> is 6 and \<open>305 * 1.7\<close> is 518.5, the operands being the doubles nearest to the
  decimal numbers.
\<close>

lemma jsMul_inexact_products:
  "jsMul 3 (6004799503160661 / 4503599627370496) = 4"
  "jsMul 5 (5404319552844595 / 4503599627370496) = 6"
  "jsMul 305 (7656119366529843 / 4503599627370496) = 1037 / 2"
  by code_simp+

section \<open>Geometry recompute\<close>

lemma Math_trunc_bounds:
  "0 \<le> x \<Longrightarrow> of_int (Math_trunc x) \<le> x \<and> x < of_int (Math_trunc x) + 1"
  by (simp add: Math_trunc_def) linarith

lemma roundedHeight_bounds:
  assumes "0 \<le> devicePixelRatio d"
  shows "even (roundedHeight d)
    \<and> of_int (roundedHeight d) \<le> jsMul (of_nat (clientHeight d)) (devicePixelRatio d)
    \<and> jsMul (of_nat (clientHeight d)) (devicePixelRatio d) < of_int (roundedHeight d) + 2"
proof -
  let ?x = "of_nat (clientHeight d) * devicePixelRatio d"
  have x: "0 \<le> ?x"
    using assms by simp
  have r: "roundedHeight d = Math_trunc (toDouble ?x / 2) * 2"
    using halving_exact [OF x] by (simp add: roundedHeight_def jsMul_def)
  have "0 \<le> toDouble ?x / 2"
    using toDouble_nonneg [OF x] by simp
  from Math_trunc_bounds [OF this] show ?thesis
    by (simp add: r jsMul_def)
qed

lemma Math_round_nearest: "\<bar>of_int (Math_round y) - y\<bar> \<le> 1 / 2"
  unfolding Math_round_def by linarith

lemma onResize_calls: "calls (onResize p d s) = calls s"
  by (simp add: onResize_def)

lemma onResize_debouncePending: "debouncePending (onResize p d s) = debouncePending s"
  by (simp add: onResize_def)

text \<open>
  C4, as stated, fails. With a container 5 pixels high on a display of pixel ratio 1.5
  the scaled height is 7.5, exactly so in doubles; \<open>onResize\<close> computes
  \<open>trunc(7.5 / 2) * 2 = 6\<close>, while the even integer nearest to 7.5 is 8.
\<close>

theorem onResize_height_counterexample:
  "canvasCurrentHeight
     (onResize defaultProps (exampleEnv\<lparr>clientHeight := 5, devicePixelRatio := 3 / 2\<rparr>)
        exampleState) = 6
   \<and> jsMul 5 (3 / 2) = 15 / 2
   \<and> \<bar>(8 :: rat) - 15 / 2\<bar> < \<bar>6 - 15 / 2\<bar>"
proof -
  have a: "toDouble (15 / 2) = 15 / 2"
    using toDouble_dyadic [of 15 1] by simp
  have b: "toDouble (15 / 4) = 15 / 4"
    using toDouble_dyadic [of 15 2] by simp
  show ?thesis
    by (simp add: onResize_def roundedHeight_def jsMul_def jsDiv_def a b Math_trunc_def
        exampleEnv_def floor_eq_iff)
qed

text \<open>
  C4, amended. When the container and the canvas are mounted (the pixel ratio not
  negative, the products below the overflow of doubles), \<open>onResize\<close> sets the backing
  height to the greatest even integer that does not exceed the product
  \<open>clientHeight * devicePixelRatio\<close> as computed in doubles (it truncates to an even value
  rather than rounding to the nearest one), and the backing width to the integer nearest
  to the product \<open>clientWidth * devicePixelRatio\<close> as computed in doubles, a tie going up.
\<close>

theorem onResize_geometry:
  assumes "containerMounted d" and "canvasMounted d" and "0 \<le> devicePixelRatio d"
    and "of_nat (clientHeight d) * devicePixelRatio d < 2 ^ 1023"
    and "of_nat (clientWidth d) * devicePixelRatio d < 2 ^ 1023"
  shows "even (canvasCurrentHeight (onResize p d s))
       \<and> of_int (canvasCurrentHeight (onResize p d s))
            \<le> jsMul (of_nat (clientHeight d)) (devicePixelRatio d)
       \<and> jsMul (of_nat (clientHeight d)) (devicePixelRatio d)
            < of_int (canvasCurrentHeight (onResize p d s)) + 2
       \<and> canvasWidth (onResize p d s)
            = \<lfloor>jsMul (of_nat (clientWidth d)) (devicePixelRatio d) + 1 / 2\<rfloor>
       \<and> \<bar>of_int (canvasWidth (onResize p d s))
            - jsMul (of_nat (clientWidth d)) (devicePixelRatio d)\<bar> \<le> 1 / 2"
proof -
  have h: "canvasCurrentHeight (onResize p d s) = roundedHeight d"
    using assms(1,2) by (simp add: onResize_def)
  have w: "canvasWidth (onResize p d s)
             = Math_round (jsMul (of_nat (clientWidth d)) (devicePixelRatio d))"
    using assms(1,2) by (simp add: onResize_def)
  show ?thesis
    unfolding h w
    using roundedHeight_bounds [OF assms(3)]
      Math_round_nearest [of "jsMul (of_nat (clientWidth d)) (devicePixelRatio d)"]
    by (simp add: Math_round_def)
qed

theorem onResize_geometry_witness:
  "canvasCurrentHeight
     (onResize defaultProps
        (exampleEnv\<lparr>clientHeight := 3,
                     devicePixelRatio := 6004799503160661 / 4503599627370496\<rparr>)
        exampleState) = 4
   \<and> canvasWidth
       (onResize defaultProps
          (exampleEnv\<lparr>clientHeight := 3,
                       devicePixelRatio := 6004799503160661 / 4503599627370496\<rparr>)
          exampleState) = 400"
proof -
  let ?d = "exampleEnv\<lparr>clientHeight := 3,
                         devicePixelRatio := 6004799503160661 / 4503599627370496\<rparr>"
  have hyp: "containerMounted ?d" "canvasMounted ?d" "0 \<le> devicePixelRatio ?d"
    "of_nat (clientHeight ?d) * devicePixelRatio ?d < 2 ^ 1023"
    "of_nat (clientWidth ?d) * devicePixelRatio ?d < 2 ^ 1023"
    by (simp_all add: exampleEnv_def)
  have p: "jsMul (of_nat (clientHeight ?d)) (devicePixelRatio ?d) = 4"
    using jsMul_inexact_products(1) by (simp add: exampleEnv_def)
  have q: "jsMul (of_nat (clientWidth ?d)) (devicePixelRatio ?d) = 400"
    by (simp add: exampleEnv_def) code_simp
  note g = onResize_geometry [OF hyp, of defaultProps exampleState, unfolded p q]
  from g have "even (canvasCurrentHeight (onResize defaultProps ?d exampleState))"
    and "canvasCurrentHeight (onResize defaultProps ?d exampleState) \<le> 4"
    and "2 < canvasCurrentHeight (onResize defaultProps ?d exampleState)"
    by simp_all
  then have "canvasCurrentHeight (onResize defaultProps ?d exampleState) = 4"
    by presburger
  moreover from g have "canvasWidth (onResize defaultProps ?d exampleState) = 400"
    by (simp add: floor_eq_iff)
  ultimately show ?thesis by simp
qed

section \<open>Live feed updates\<close>

text \<open>
  C3, as stated, fails. With the canvas mounted, speed 3, a counter at 1 and a
  non-empty feed, the effect neither resets the counter nor calls \<open>drawByLiveStream\<close>,
  the only call that draws: no redraw occurs on a throttled frame.
\<close>

theorem live_update_no_redraw_counterexample:
  "canvasMounted exampleEnv
   \<and> \<not> (formattedSpeed defaultProps \<le> indexSpeedRef (exampleState\<lparr>indexSpeedRef := 1\<rparr>)
        \<or> length (audioData (exampleControls\<lparr>audioData := [128]\<rparr>)) = 0)
   \<and> calls (liveStreamEffect defaultProps (exampleControls\<lparr>audioData := [128]\<rparr>) exampleEnv
        (exampleState\<lparr>indexSpeedRef := 1\<rparr>)) = calls (exampleState\<lparr>indexSpeedRef := 1\<rparr>)
   \<and> filter isDraw
        (calls (liveStreamEffect defaultProps (exampleControls\<lparr>audioData := [128]\<rparr>) exampleEnv
           (exampleState\<lparr>indexSpeedRef := 1\<rparr>))) = []"
  by (simp add: liveStreamEffect_def formattedSpeed_def Math_trunc_def defaultProps_def
      exampleEnv_def exampleState_def)

text \<open>
  C3, amended. On a feed update with the canvas mounted: if the speed counter has
  reached the threshold or the feed is empty, the counter restarts (from 0 for a
  non-empty feed, from the threshold for an empty one), \<open>drawByLiveStream\<close>, which commits
  and redraws, is called once, and the counter is incremented; otherwise the frame is
  throttled altogether: nothing is committed or redrawn, only the counter is
  incremented. Without a canvas the update does nothing.
\<close>

theorem live_feed_update:
  "(\<not> canvasMounted d \<longrightarrow> liveStreamEffect p c d s = s)
   \<and> (canvasMounted d \<and> (formattedSpeed p \<le> indexSpeedRef s \<or> audioData c = []) \<longrightarrow>
        liveStreamEffect p c d s =
          s\<lparr>indexSpeedRef := (if audioData c = [] then formattedSpeed p else 0) + 1,
            calls := calls s @ [DrawByLiveStream (liveStreamParams p c s)]\<rparr>)
   \<and> (canvasMounted d \<and> \<not> (formattedSpeed p \<le> indexSpeedRef s \<or> audioData c = []) \<longrightarrow>
        liveStreamEffect p c d s = s\<lparr>indexSpeedRef := indexSpeedRef s + 1\<rparr>)"
  by (simp add: liveStreamEffect_def Let_def)

theorem live_feed_update_witness:
  "indexSpeedRef (liveStreamEffect defaultProps exampleControls exampleEnv exampleState) = 2
   \<and> calls (liveStreamEffect defaultProps exampleControls exampleEnv exampleState) = []
   \<and> indexSpeedRef (liveStreamEffect defaultProps exampleControls exampleEnv
        (exampleState\<lparr>indexSpeedRef := 3\<rparr>)) = 1
   \<and> length (calls (liveStreamEffect defaultProps exampleControls exampleEnv
        (exampleState\<lparr>indexSpeedRef := 3\<rparr>))) = 1
   \<and> liveStreamEffect defaultProps exampleControls (exampleEnv\<lparr>canvasMounted := False\<rparr>)
        exampleState = exampleState"
  using live_feed_update [of exampleEnv defaultProps exampleControls exampleState]
    live_feed_update [of exampleEnv defaultProps exampleControls "exampleState\<lparr>indexSpeedRef := 3\<rparr>"]
    live_feed_update [of "exampleEnv\<lparr>canvasMounted := False\<rparr>" defaultProps exampleControls exampleState]
  by (simp add: formattedSpeed_def Math_trunc_def defaultProps_def exampleEnv_def
      exampleControls_def exampleState_def)

section \<open>Completion of an extraction\<close>

text \<open>
  C10. When the completion callback fires it calls both processing-flag setters with
  \<open>false\<close>, in this order, and nothing else; it assigns \<open>audioSrc\<close> to the audio element's
  \<open>src\<close> exactly when the element exists and the resize-processing flag the callback sees
  is not set. After a resize-triggered recompute the \<open>src\<close> is left as it was.
\<close>

theorem completedAudioProcessing_effects:
  "calls (completedAudioProcessing c s) =
     calls s @ [SetIsProcessingOnResize False, SetIsProcessingAudioOnComplete False]
   \<and> audioElementSrc (completedAudioProcessing c s) =
       (if audioElementSrc s \<noteq> None \<and> \<not> isProcessingOnResize c
        then Some (audioSrc c) else audioElementSrc s)
   \<and> (isProcessingOnResize c \<longrightarrow>
        audioElementSrc (completedAudioProcessing c s) = audioElementSrc s)"
  by (simp add: completedAudioProcessing_def Let_def)

theorem completedAudioProcessing_effects_witness:
  "audioElementSrc
     (completedAudioProcessing (exampleControls\<lparr>isProcessingOnResize := True\<rparr>) exampleState)
     = Some ''blob:previous''
   \<and> audioElementSrc (completedAudioProcessing exampleControls exampleState)
     = Some ''blob:recording''
   \<and> calls (completedAudioProcessing exampleControls exampleState)
     = [SetIsProcessingOnResize False, SetIsProcessingAudioOnComplete False]"
  using completedAudioProcessing_effects [of "exampleControls\<lparr>isProcessingOnResize := True\<rparr>" exampleState]
    completedAudioProcessing_effects [of exampleControls exampleState]
  by (simp add: exampleControls_def exampleState_def)

section \<open>Resize coordination\<close>

text \<open>
  C9. Where container-resize notification is known to misbehave (Safari) the effect
  subscribes to the window's resize event and schedules re-checks of the geometry 100,
  500 and 1000 milliseconds after it ran, besides the immediate one; where no resize
  observer exists at all it subscribes to the window's resize event, re-checks at once,
  and schedules no delayed re-check.
\<close>

theorem resize_fallback_strategies:
  "resizeStrategy True hasResizeObserver d = SafariWindow
   \<and> resizeEffect True hasResizeObserver p d s =
       (onResize p d s)\<lparr>calls := calls s @
          [AddWindowResizeListener,
           SetTimeoutOnResize 100, SetTimeoutOnResize 500, SetTimeoutOnResize 1000]\<rparr>
   \<and> resizeStrategy False False d = WindowFallback
   \<and> resizeEffect False False p d s =
       (onResize p d s)\<lparr>calls := calls s @ [AddWindowResizeListener]\<rparr>"
  by (simp add: resizeStrategy_def resizeEffect_def onResize_def Let_def)

theorem resize_fallback_strategies_witness:
  "calls (resizeEffect True True defaultProps exampleEnv exampleState) =
     [AddWindowResizeListener,
      SetTimeoutOnResize 100, SetTimeoutOnResize 500, SetTimeoutOnResize 1000]
   \<and> calls (resizeEffect False False defaultProps exampleEnv exampleState) =
     [AddWindowResizeListener]
   \<and> canvasWidth (resizeEffect False False defaultProps exampleEnv exampleState) = 600"
proof -
  have w: "toDouble 600 = 600"
    using toDouble_of_int [of 600] by simp
  show ?thesis
    using resize_fallback_strategies [of True exampleEnv defaultProps exampleState]
    by (simp add: onResize_def Math_round_def jsMul_def w exampleEnv_def exampleState_def
        floor_eq_iff)
qed

lemma resizeRun_append:
  "resizeRun st p c (xs @ ys) s = resizeRun st p c ys (resizeRun st p c xs s)"
  by (induction xs arbitrary: s) simp_all

lemma notify_static:
  assumes "isAvailableRecordedAudio c"
  shows "isResizing (resizeStep ContainerObserver p c (Notify d) s)
       \<and> debouncePending (resizeStep ContainerObserver p c (Notify d) s)
       \<and> filter isRun (calls (resizeStep ContainerObserver p c (Notify d) s))
           = filter isRun (calls s)
       \<and> screenWidth (resizeStep ContainerObserver p c (Notify d) s) = innerWidth d"
  using assms
  by (simp add: rerender_def resizeHandler_def scheduleDebounced_def debouncedOnResize_def
      extractionEffect_def extractionDeps_def split: option.splits)

lemma notifies_static:
  assumes "isAvailableRecordedAudio c" and "ds \<noteq> []"
  shows "isResizing (resizeRun ContainerObserver p c (map Notify ds) s)
       \<and> debouncePending (resizeRun ContainerObserver p c (map Notify ds) s)
       \<and> filter isRun (calls (resizeRun ContainerObserver p c (map Notify ds) s))
           = filter isRun (calls s)
       \<and> screenWidth (resizeRun ContainerObserver p c (map Notify ds) s) = innerWidth (last ds)"
  using assms(2)
proof (induction ds arbitrary: s)
  case Nil
  then show ?case by simp
next
  case (Cons d ds)
  show ?case
  proof (cases "ds = []")
    case True
    then show ?thesis
      using notify_static [OF assms(1), of p d s] by simp
  next
    case False
    from Cons.IH [OF False, of "resizeStep ContainerObserver p c (Notify d) s"]
      notify_static [OF assms(1), of p d s] False
    show ?thesis by simp
  qed
qed

lemma elapsed_static:
  assumes "bufferFromRecordedBlob c = Some buf" and "\<not> isRecordingInProgress c"
    and "\<not> onlyRecording p" and "containerMounted d" and "canvasMounted d"
    and "isResizing t" and "debouncePending t"
  shows "calls (resizeStep st p c (WindowElapsed d) t) =
         calls t @ [Run \<lparr>bufferData = buf, height = roundedHeight d,
                         width = Math_round (jsMul (of_nat (clientWidth d)) (devicePixelRatio d)),
                         job_barWidth = formattedBarWidth (screenWidth t) p,
                         job_gap = formattedGap p\<rparr>]"
  using assms
  by (simp add: rerender_def debounceElapsed_def onResize_def extractionDeps_def
      extractionEffect_def extractionJob_def)

lemma resize_burst:
  assumes "isAvailableRecordedAudio c" and "ds \<noteq> []"
    and "bufferFromRecordedBlob c = Some buf" and "\<not> isRecordingInProgress c"
    and "\<not> onlyRecording p" and "containerMounted d" and "canvasMounted d"
  shows "filter isRun
           (calls (resizeRun ContainerObserver p c (map Notify ds @ [WindowElapsed d]) s)) =
         filter isRun (calls s) @
           [Run \<lparr>bufferData = buf, height = roundedHeight d,
                 width = Math_round (jsMul (of_nat (clientWidth d)) (devicePixelRatio d)),
                 job_barWidth = formattedBarWidth (innerWidth (last ds)) p,
                 job_gap = formattedGap p\<rparr>]"
proof -
  let ?t = "resizeRun ContainerObserver p c (map Notify ds) s"
  note n = notifies_static [OF assms(1,2), of p s]
  have "calls (resizeStep ContainerObserver p c (WindowElapsed d) ?t) =
         calls ?t @ [Run \<lparr>bufferData = buf, height = roundedHeight d,
                         width = Math_round (jsMul (of_nat (clientWidth d)) (devicePixelRatio d)),
                         job_barWidth = formattedBarWidth (screenWidth ?t) p,
                         job_gap = formattedGap p\<rparr>]"
    using elapsed_static [OF assms(3-7), of ?t ContainerObserver] n by blast
  then show ?thesis
    using n by (simp add: resizeRun_append)
qed

text \<open>
  C8. On a container-resize notification (the observer callback): if a recorded buffer
  exists, the resize-processing flag is raised, \<open>isResizing\<close> is set and the geometry
  recompute is handed to the debounce, the geometry staying as it is for now; if none
  exists, the geometry is recomputed at once, with no debounce and no flag. And a burst
  of one or more notifications followed by the end of the debounce window starts exactly
  one extraction, with the geometry measured at the end of the window.
\<close>

theorem container_resize_notification:
  "(isAvailableRecordedAudio c \<longrightarrow>
      resizeHandler ContainerObserver p c d s =
        s\<lparr>screenWidth := innerWidth d, isResizing := True, debouncePending := True,
          calls := calls s @ [SetIsProcessingOnResize True]\<rparr>)
   \<and> (\<not> isAvailableRecordedAudio c \<longrightarrow>
        resizeHandler ContainerObserver p c d s = onResize p d (s\<lparr>screenWidth := innerWidth d\<rparr>)
      \<and> debouncePending (resizeHandler ContainerObserver p c d s) = debouncePending s
      \<and> calls (resizeHandler ContainerObserver p c d s) = calls s)
   \<and> (isAvailableRecordedAudio c \<and> ds \<noteq> [] \<and> bufferFromRecordedBlob c = Some buf
        \<and> \<not> isRecordingInProgress c \<and> \<not> onlyRecording p
        \<and> containerMounted e \<and> canvasMounted e \<longrightarrow>
      filter isRun
        (calls (resizeRun ContainerObserver p c (map Notify ds @ [WindowElapsed e]) s)) =
      filter isRun (calls s) @
        [Run \<lparr>bufferData = buf, height = roundedHeight e,
              width = Math_round (jsMul (of_nat (clientWidth e)) (devicePixelRatio e)),
              job_barWidth = formattedBarWidth (innerWidth (last ds)) p,
              job_gap = formattedGap p\<rparr>])"
proof (intro conjI impI)
  assume "isAvailableRecordedAudio c"
  then show "resizeHandler ContainerObserver p c d s =
        s\<lparr>screenWidth := innerWidth d, isResizing := True, debouncePending := True,
          calls := calls s @ [SetIsProcessingOnResize True]\<rparr>"
    by (simp add: resizeHandler_def scheduleDebounced_def debouncedOnResize_def)
next
  assume "\<not> isAvailableRecordedAudio c"
  then show h: "resizeHandler ContainerObserver p c d s
                  = onResize p d (s\<lparr>screenWidth := innerWidth d\<rparr>)"
    by (simp add: resizeHandler_def)
  show "debouncePending (resizeHandler ContainerObserver p c d s) = debouncePending s"
    unfolding h by (simp add: onResize_debouncePending)
  show "calls (resizeHandler ContainerObserver p c d s) = calls s"
    unfolding h by (simp add: onResize_calls)
next
  assume "isAvailableRecordedAudio c \<and> ds \<noteq> [] \<and> bufferFromRecordedBlob c = Some buf
        \<and> \<not> isRecordingInProgress c \<and> \<not> onlyRecording p
        \<and> containerMounted e \<and> canvasMounted e"
  then show "filter isRun
        (calls (resizeRun ContainerObserver p c (map Notify ds @ [WindowElapsed e]) s)) =
      filter isRun (calls s) @
        [Run \<lparr>bufferData = buf, height = roundedHeight e,
              width = Math_round (jsMul (of_nat (clientWidth e)) (devicePixelRatio e)),
              job_barWidth = formattedBarWidth (innerWidth (last ds)) p,
              job_gap = formattedGap p\<rparr>]"
    using resize_burst [of c ds buf p e s] by blast
qed

theorem container_resize_notification_witness:
  "debouncePending (resizeHandler ContainerObserver defaultProps exampleControls exampleEnv exampleState)
   \<and> canvasCurrentHeight
       (resizeHandler ContainerObserver defaultProps exampleControls exampleEnv exampleState) = 0
   \<and> canvasCurrentHeight
       (resizeHandler ContainerObserver defaultProps
          (exampleControls\<lparr>isAvailableRecordedAudio := False\<rparr>) exampleEnv exampleState) = 200
   \<and> filter isRun
       (calls (resizeRun ContainerObserver defaultProps exampleControls
          (map Notify [exampleEnv\<lparr>clientWidth := 200\<rparr>, exampleEnv\<lparr>clientWidth := 250\<rparr>]
             @ [WindowElapsed exampleEnv]) exampleState)) =
     [Run \<lparr>bufferData = [1 / 2, - 1, 1 / 4], height = 200, width = 600,
           job_barWidth = 2, job_gap = 1\<rparr>]"
proof -
  have w: "toDouble 600 = 600" "toDouble 200 = 200" "toDouble 100 = 100"
    using toDouble_of_int [of 600] toDouble_of_int [of 200] toDouble_of_int [of 100]
    by simp_all
  show ?thesis
    using container_resize_notification
        [of exampleControls defaultProps exampleEnv exampleState
            "[exampleEnv\<lparr>clientWidth := 200\<rparr>, exampleEnv\<lparr>clientWidth := 250\<rparr>]"
            "[1 / 2, - 1, 1 / 4]" exampleEnv]
      container_resize_notification
        [of "exampleControls\<lparr>isAvailableRecordedAudio := False\<rparr>" defaultProps
            exampleEnv exampleState]
    by (simp add: exampleControls_def exampleEnv_def exampleState_def defaultProps_def
        onResize_def roundedHeight_def Math_round_def Math_trunc_def jsMul_def jsDiv_def w
        formattedBarWidth_def formattedGap_def isMobile_def floor_eq_iff)
qed

section \<open>Bar extraction\<close>






section \<open>Supersession of extraction jobs\<close>

text \<open>
  C2. Let a job J1 be submitted to a coordinator with no job in flight, and a job J2
  while J1 is still executing. Whichever of the two completes first, exactly one result
  reaches the completion callback, the one of J2; the result of J1 is discarded.
\<close>

theorem supersession_delivers_latest:
  assumes "inflight c = []"
  shows "delivered (complete (latest c + 2) (complete (latest c + 1) (submit j2 (submit j1 c))))
           = delivered c @ [getBarsData j2]
       \<and> delivered (complete (latest c + 1) (complete (latest c + 2) (submit j2 (submit j1 c))))
           = delivered c @ [getBarsData j2]
       \<and> delivered (complete (latest c + 1) (submit j2 (submit j1 c))) = delivered c"
  using assms by (simp add: submit_def complete_def)

theorem supersession_delivers_latest_witness:
  "delivered (complete 2 (complete 1 (submit exampleJob (submit (exampleJob\<lparr>width := 50\<rparr>) idle))))
     = [getBarsData exampleJob]
   \<and> delivered (complete 1 (complete 2 (submit exampleJob (submit (exampleJob\<lparr>width := 50\<rparr>) idle))))
     = [getBarsData exampleJob]"
  using supersession_delivers_latest [of idle exampleJob "exampleJob\<lparr>width := 50\<rparr>"]
  by (simp add: idle_def numeral_2_eq_2)

section \<open>Playhead colouring\<close>






end
